theory Spec2Isabelle
  imports Complex_Main
begin

section \<open>JavaScript strings\<close>

text \<open>
  A JavaScript string is a sequence of UTF-16 code units. The regular expressions of
  the program carry no flag that changes this (the one \<open>u\<close> flag in an older
  \<open>isPunctuation\<close> is applied to single code units), so every character class
  below is a predicate on code units. A code unit is a natural number below 65536;
  the functions are total on all naturals.
\<close>

type_synonym jschar = nat
type_synonym jsstring = "jschar list"

text \<open>ASCII literals, written as Isabelle strings.\<close>

definition js :: "string \<Rightarrow> jsstring" where
  "js s = map of_char s"

text \<open>
  ECMAScript \<open>WhiteSpace\<close> and \<open>LineTerminator\<close>: the code units matched by
  \<open>\s\<close> and removed by \<open>String.prototype.trim\<close>.
\<close>

definition isWhiteSpace :: "jschar \<Rightarrow> bool" where
  "isWhiteSpace c \<longleftrightarrow>
     c = 0x09 \<or> c = 0x0A \<or> c = 0x0B \<or> c = 0x0C \<or> c = 0x0D \<or> c = 0x20 \<or>
     c = 0xA0 \<or> c = 0x1680 \<or> (0x2000 \<le> c \<and> c \<le> 0x200A) \<or>
     c = 0x2028 \<or> c = 0x2029 \<or> c = 0x202F \<or> c = 0x205F \<or> c = 0x3000 \<or>
     c = 0xFEFF"

definition trim :: "jsstring \<Rightarrow> jsstring" where
  "trim s = rev (dropWhile isWhiteSpace (rev (dropWhile isWhiteSpace s)))"

text \<open>
  \<open>String.prototype.split\<close> with a separator that never matches the empty string.
  The matcher \<open>m\<close> gives the length of the separator's match at the head of the rest
  of the text (0: no match there). The scan collects code units in \<open>acc\<close> until the
  separator matches, emits the chunk and resumes behind the match; the last chunk is
  emitted at the end of the text, so the empty text gives one empty chunk.
\<close>

function js_split :: "(jsstring \<Rightarrow> nat) \<Rightarrow> jsstring \<Rightarrow> jsstring \<Rightarrow> jsstring list" where
  "js_split m acc s =
     (if s = [] then [acc]
      else if m s = 0 then js_split m (acc @ [hd s]) (tl s)
      else acc # js_split m [] (drop (m s) s))"
  by pat_completeness auto
termination
  by (relation "measure (\<lambda>(m, acc, s). length s)") auto

declare js_split.simps [simp del]

text \<open>\<open>Array.prototype.join\<close>, the inverse of splitting at a fixed separator.\<close>

fun js_join :: "jsstring \<Rightarrow> jsstring list \<Rightarrow> jsstring" where
  "js_join sep [] = []"
| "js_join sep [x] = x"
| "js_join sep (x # y # ys) = x @ sep @ js_join sep (y # ys)"

text \<open>The separators of the program: \<open>/\r?\n/\<close>, \<open>"\t"\<close> and \<open>/\s+/\<close>.\<close>

definition lineSep :: "jsstring \<Rightarrow> nat" where
  "lineSep s = (if take 2 s = [0x0D, 0x0A] then 2 else if take 1 s = [0x0A] then 1 else 0)"

definition tabSep :: "jsstring \<Rightarrow> nat" where
  "tabSep s = (if take 1 s = [0x09] then 1 else 0)"

definition wsSep :: "jsstring \<Rightarrow> nat" where
  "wsSep s = length (takeWhile isWhiteSpace s)"

text \<open>
  A number in a template literal: the decimal digits of a non-negative integer.
\<close>

fun decimal :: "nat \<Rightarrow> jsstring" where
  "decimal n = (if n < 10 then [0x30 + n] else decimal (n div 10) @ [0x30 + n mod 10])"

declare decimal.simps [simp del]

section \<open>JavaScript numbers\<close>

text \<open>
  A number is a double. The counts and sizes of the program are integers far below
  \<open>2 ^ 53\<close> and are exact; a division, a product with \<open>Math.random()\<close> and a
  decimal literal give the exact value rounded to a double. The rounding is the
  runtime's and is a parameter (\<open>fl\<close>) of every function that divides, multiplies or
  compares with a literal; the values themselves are rationals.

  \<open>binary64\<close> is that rounding for magnitudes below \<open>2 ^ 1024\<close>: to the nearest
  multiple of the quantum of the value's binade (52 fraction bits, exponent at least
  -1022), ties to the even multiple. It is used for concrete inputs.
\<close>

definition pow2 :: "int \<Rightarrow> rat" where
  "pow2 e = (if 0 \<le> e then 2 ^ nat e else 1 / 2 ^ nat (- e))"

fun log2floor :: "nat \<Rightarrow> rat \<Rightarrow> int" where
  "log2floor 0 x = 0"
| "log2floor (Suc n) x =
     (if x < 1 then log2floor n (2 * x) - 1
      else if 2 \<le> x then log2floor n (x / 2) + 1
      else 0)"

definition roundHalfEven :: "rat \<Rightarrow> int" where
  "roundHalfEven y =
     (let f = \<lfloor>y\<rfloor>; r = y - of_int f
      in if r < 1 / 2 then f
         else if 1 / 2 < r then f + 1
         else if even f then f else f + 1)"

definition binary64 :: "rat \<Rightarrow> rat" where
  "binary64 x =
     (if x = 0 then 0
      else
        let e = max (log2floor 1100 \<bar>x\<bar>) (- 1022);
            q = pow2 (e - 52)
        in sgn x * (of_int (roundHalfEven (\<bar>x\<bar> / q)) * q))"

section \<open>The case mapping\<close>

text \<open>
  \<open>String.prototype.toLowerCase\<close> is the runtime's Unicode case mapping; it is not
  code of the program and is a parameter (\<open>toLowerCase\<close>) of every function that
  calls it. \<open>asciiLower\<close> is the mapping on ASCII text, used for concrete inputs.
\<close>

definition asciiLower :: "jsstring \<Rightarrow> jsstring" where
  "asciiLower s = map (\<lambda>c. if 0x41 \<le> c \<and> c \<le> 0x5A then c + 0x20 else c) s"

section \<open>Corpus\<close>

record CorpusPair =
  eng :: jsstring
  jpn :: jsstring

fun parseCorpus_loop :: "jsstring list \<Rightarrow> CorpusPair list \<Rightarrow> CorpusPair list" where
  "parseCorpus_loop [] result = result"
| "parseCorpus_loop (line # lines) result =
     (if trim line = [] then parseCorpus_loop lines result
      else
        let cols = js_split tabSep [] line in
        if length cols \<ge> 4 then
          let e = trim (cols ! 1); j = trim (cols ! 3) in
          if e \<noteq> [] \<and> j \<noteq> [] then parseCorpus_loop lines (result @ [\<lparr>eng = e, jpn = j\<rparr>])
          else parseCorpus_loop lines result
        else parseCorpus_loop lines result)"

definition parseCorpus :: "jsstring \<Rightarrow> CorpusPair list" where
  "parseCorpus tsv = parseCorpus_loop (js_split lineSep [] tsv) []"

text \<open>
  \<open>Math.random()\<close> is the parameter \<open>rnd\<close>, a double in \<open>[0, 1)\<close>; the product
  with the length is rounded before it is floored. An index outside the array reads
  \<open>undefined\<close>, which every caller treats like \<open>null\<close>.
\<close>

definition randomPair :: "(rat \<Rightarrow> rat) \<Rightarrow> CorpusPair list \<Rightarrow> rat \<Rightarrow> CorpusPair option" where
  "randomPair fl pairs rnd =
     (if length pairs = 0 then None
      else
        let i = \<lfloor>fl (rnd * of_nat (length pairs))\<rfloor> in
        if 0 \<le> i \<and> nat i < length pairs then Some (pairs ! nat i) else None)"

section \<open>Scoring\<close>

definition isPunctuation :: "jschar \<Rightarrow> bool" where
  "isPunctuation c \<longleftrightarrow>
     c = 0x2E \<or> c = 0x2C \<or> c = 0x21 \<or> c = 0x3F \<or> c = 0x3B \<or> c = 0x3A \<or>
     c = 0x28 \<or> c = 0x29 \<or> c = 0x22 \<or> c = 0x27"

definition normalizeExact :: "(jsstring \<Rightarrow> jsstring) \<Rightarrow> jsstring \<Rightarrow> jsstring" where
  "normalizeExact toLowerCase text =
     trim (filter (\<lambda>c. \<not> isPunctuation c) (toLowerCase text))"

text \<open>
  The members of the class that \<open>tokenize\<close> keeps: the ASCII letters, the apostrophe
  (0x27) and the right single quotation mark U+2019. Every other code unit is removed.
\<close>

definition isTokenChar :: "jschar \<Rightarrow> bool" where
  "isTokenChar c \<longleftrightarrow>
     (0x61 \<le> c \<and> c \<le> 0x7A) \<or> (0x41 \<le> c \<and> c \<le> 0x5A) \<or> c = 0x27 \<or> c = 0x2019"

definition tokenize :: "(jsstring \<Rightarrow> jsstring) \<Rightarrow> jsstring \<Rightarrow> jsstring list" where
  "tokenize toLowerCase text =
     filter (\<lambda>w. w \<noteq> [])
       (map (\<lambda>w. filter isTokenChar w) (js_split wsSep [] (toLowerCase text)))"

text \<open>
  A JavaScript \<open>Set\<close> built from an array: the distinct elements in the order of their
  first occurrence.
\<close>

definition Set_add :: "'a list \<Rightarrow> 'a \<Rightarrow> 'a list" where
  "Set_add S x = (if x \<in> set S then S else S @ [x])"

definition new_Set :: "'a list \<Rightarrow> 'a list" where
  "new_Set xs = foldl Set_add [] xs"

definition Set_has :: "'a list \<Rightarrow> 'a \<Rightarrow> bool" where
  "Set_has S x \<longleftrightarrow> x \<in> set S"

text \<open>
  The doubled count and the sum of the sizes are exact; their quotient is rounded.
\<close>

definition jaccardSimilarity :: "(rat \<Rightarrow> rat) \<Rightarrow> jsstring list \<Rightarrow> jsstring list \<Rightarrow> rat" where
  "jaccardSimilarity fl a b =
     (let A = new_Set a; B = new_Set b;
          inter = length (filter (\<lambda>x. Set_has B x) A)
      in if length A + length B = 0 then 0
         else fl ((of_nat inter * 2) / of_nat (length A + length B)))"

text \<open>The four messages \<open>evaluateAnswer\<close> returns, named by the label each stands for.\<close>

definition msg_EXACT :: jsstring where
  "msg_EXACT = [0x25CE, 0x20, 0x5B8C, 0x5168, 0x4E00, 0x81F4, 0x3067, 0x3059, 0x3002]"

definition msg_NEAR :: jsstring where
  "msg_NEAR = [0x25CB, 0x20, 0x304B, 0x306A, 0x308A, 0x8FD1, 0x3044, 0x8868, 0x73FE,
     0x3067, 0x3059, 0x3002]"

definition msg_PARTIAL :: jsstring where
  "msg_PARTIAL = [0x25B3, 0x20, 0x4E00, 0x90E8, 0x306F, 0x5408, 0x3063, 0x3066, 0x3044,
     0x307E, 0x3059, 0x304C, 0x9055, 0x3044, 0x304C, 0x3042, 0x308A, 0x307E, 0x3059,
     0x3002]"

definition msg_DIFFERENT :: jsstring where
  "msg_DIFFERENT = [0xD7, 0x20, 0x8868, 0x73FE, 0x304C, 0x5927, 0x304D, 0x304F, 0x7570,
     0x306A, 0x308A, 0x307E, 0x3059, 0x3002]"

text \<open>The literals \<open>0.8\<close> and \<open>0.5\<close> are the doubles \<open>fl (4 / 5)\<close> and \<open>fl (1 / 2)\<close>.\<close>

definition evaluateAnswer ::
    "(jsstring \<Rightarrow> jsstring) \<Rightarrow> (rat \<Rightarrow> rat) \<Rightarrow> jsstring \<Rightarrow> jsstring \<Rightarrow> jsstring" where
  "evaluateAnswer toLowerCase fl model user =
     (if normalizeExact toLowerCase model = normalizeExact toLowerCase user then msg_EXACT
      else
        let sim = jaccardSimilarity fl (tokenize toLowerCase model) (tokenize toLowerCase user) in
        if sim \<ge> fl (4 / 5) then msg_NEAR
        else if sim \<ge> fl (1 / 2) then msg_PARTIAL
        else msg_DIFFERENT)"

section \<open>Grammar check\<close>

record LTReplacement =
  value' :: jsstring

record LTMatch =
  message :: jsstring
  replacements :: "LTReplacement list"

text \<open>
  What \<open>fetch\<close> and \<open>res.json()\<close> can do. The promise of \<open>fetch\<close> rejects (a
  \<open>TypeError\<close>) when the request cannot be made or answered, and resolves with a
  response otherwise, whatever its status. \<open>res.json()\<close> rejects (a \<open>SyntaxError\<close>)
  when the body is not JSON. A parsed body is read at the type \<open>LTResponse\<close> with no
  check; the member \<open>matches\<close> may be missing (\<open>None\<close>), and then
  \<open>json.matches.length\<close> raises a \<open>TypeError\<close>.
\<close>

datatype js_error = TypeError | SyntaxError

datatype json_body = Unparsable | Parsed "LTMatch list option"

record Response =
  ok :: bool
  status :: nat
  statusText :: jsstring
  body :: json_body

datatype fetch_outcome = Rejected | Resolved Response

definition msg_httpError :: jsstring where
  "msg_httpError = js ''LanguageTool HTTP'' @ [0x30A8, 0x30E9, 0x30FC] @ js '': ''"

definition msg_noIssues :: jsstring where
  "msg_noIssues = [0x6587, 0x6CD5, 0x4E0A, 0x306E, 0x554F, 0x984C, 0x306F, 0x7279, 0x306B,
     0x898B, 0x3064, 0x304B, 0x308A, 0x307E, 0x305B, 0x3093, 0x3067, 0x3057, 0x305F,
     0x3002]"

text \<open>The separator \<open>" \<rightarrow> "\<close> of a suggestion: a space, U+2192 and a space.\<close>

definition sep_arrow :: jsstring where
  "sep_arrow = [0x20, 0x2192, 0x20]"

text \<open>
  \<open>m.replacements[0]?.value\<close>: \<open>undefined\<close> (here \<open>None\<close>) when there is no first
  replacement.
\<close>

definition firstSuggestion :: "LTMatch \<Rightarrow> jsstring option" where
  "firstSuggestion m = (case replacements m of [] \<Rightarrow> None | r # _ \<Rightarrow> Some (value' r))"

text \<open>The callback of \<open>json.matches.map\<close>; \<open>sug ? \<dots> : \<dots>\<close> tests truthiness, and
  the empty string is falsy like \<open>undefined\<close>.\<close>

definition formatMatch :: "nat \<Rightarrow> LTMatch \<Rightarrow> jsstring" where
  "formatMatch i m =
     (case firstSuggestion m of
        None \<Rightarrow> decimal (i + 1) @ js ''. '' @ message m
      | Some sug \<Rightarrow>
          if sug \<noteq> [] then decimal (i + 1) @ js ''. '' @ message m @ sep_arrow @ sug
          else decimal (i + 1) @ js ''. '' @ message m)"

text \<open>
  \<open>checkGrammar\<close>; the second argument is what \<open>fetch\<close> does with the request built
  from the sentence. The function has no \<open>try\<close>: a rejection is the function's own.
\<close>

definition checkGrammar :: "jsstring \<Rightarrow> fetch_outcome \<Rightarrow> js_error + jsstring list" where
  "checkGrammar sentence outcome =
     (case outcome of
        Rejected \<Rightarrow> Inl TypeError
      | Resolved res \<Rightarrow>
          if \<not> ok res then Inr [msg_httpError @ decimal (status res)]
          else
            (case body res of
               Unparsable \<Rightarrow> Inl SyntaxError
             | Parsed None \<Rightarrow> Inl TypeError
             | Parsed (Some matches) \<Rightarrow>
                 if length matches = 0 then Inr [msg_noIssues]
                 else Inr (map (\<lambda>(i, m). formatMatch i m) (enumerate 0 matches))))"

text \<open>
  The earlier revisions of the component format through \<open>formatMatches\<close>, which pushes
  the suggestion as a string of its own and takes missing \<open>matches\<close> for no finding,
  and add the status text to the diagnostic.
\<close>

definition msg_suggestion :: jsstring where
  "msg_suggestion = js ''   '' @ [0x2192] @ js '' Suggestion: ''"

fun formatMatches_loop :: "nat \<Rightarrow> LTMatch list \<Rightarrow> jsstring list \<Rightarrow> jsstring list" where
  "formatMatches_loop idx [] result = result"
| "formatMatches_loop idx (m # ms) result =
     (let header = decimal (idx + 1) @ js ''. '' @ message m;
          sugg = (if length (replacements m) > 0
                  then msg_suggestion @ value' (hd (replacements m)) else [])
      in formatMatches_loop (idx + 1) ms
           (if sugg \<noteq> [] then result @ [header] @ [sugg] else result @ [header]))"

definition formatMatches :: "LTMatch list option \<Rightarrow> jsstring list" where
  "formatMatches matches =
     (case matches of
        None \<Rightarrow> [msg_noIssues]
      | Some ms \<Rightarrow> if length ms = 0 then [msg_noIssues] else formatMatches_loop 0 ms [])"

definition checkGrammar_legacy :: "jsstring \<Rightarrow> fetch_outcome \<Rightarrow> js_error + jsstring list" where
  "checkGrammar_legacy sentence outcome =
     (case outcome of
        Rejected \<Rightarrow> Inl TypeError
      | Resolved res \<Rightarrow>
          if \<not> ok res
          then Inr [msg_httpError @ decimal (status res) @ js '' '' @ statusText res]
          else
            (case body res of
               Unparsable \<Rightarrow> Inl SyntaxError
             | Parsed matches \<Rightarrow> Inr (formatMatches matches)))"

section \<open>The session with the frame transition\<close>

record LastResult =
  r_jpn :: jsstring
  r_eng :: jsstring
  r_userAnswer :: jsstring
  evalText :: jsstring
  grammarMessages :: "jsstring list"

record FrameState =
  lastResult :: "LastResult option"
  current :: CorpusPair

text \<open>The state hooks of the component \<open>App\<close>.\<close>

record Session =
  corpus :: "CorpusPair list"
  frame :: "FrameState option"
  loading :: bool
  userAnswer :: jsstring
  checking' :: bool
  animating :: bool
  animFrom :: "FrameState option"
  animTo :: "FrameState option"

definition pickNextQuestion ::
    "(rat \<Rightarrow> rat) \<Rightarrow> CorpusPair list \<Rightarrow> rat \<Rightarrow> CorpusPair option" where
  "pickNextQuestion fl c rnd = (if length c = 0 then None else randomPair fl c rnd)"

text \<open>
  \<open>handleCheck\<close> is asynchronous. Its first part runs when it is called, up to
  \<open>await checkGrammar(userAnswer)\<close>; the rest runs when the grammar check settles, on
  the values the closure captured: the frame, the answer, the corpus and the evaluation.
  A call that returns before the \<open>await\<close> leaves nothing pending.
\<close>

record Pending =
  k_frame :: FrameState
  k_userAnswer :: jsstring
  k_corpus :: "CorpusPair list"
  k_evalText :: jsstring

definition handleCheck ::
    "(jsstring \<Rightarrow> jsstring) \<Rightarrow> (rat \<Rightarrow> rat) \<Rightarrow> Session \<Rightarrow> Session \<times> Pending option" where
  "handleCheck toLowerCase fl st =
     (case frame st of
        None \<Rightarrow> (st, None)
      | Some f \<Rightarrow>
          if trim (userAnswer st) = [] then (st, None)
          else
            (st\<lparr>checking' := True\<rparr>,
             Some \<lparr>k_frame = f, k_userAnswer = userAnswer st, k_corpus = corpus st,
                   k_evalText = evaluateAnswer toLowerCase fl (eng (current f)) (userAnswer st)\<rparr>))"

text \<open>
  The rest of \<open>handleCheck\<close>, run on the session as it is when the grammar check has
  settled. \<open>handleCheck\<close> has no \<open>try\<close>: an error of \<open>checkGrammar\<close> rejects the
  promise of \<open>handleCheck\<close> (\<open>Inl\<close>), no setter runs and the session stays as it is.
\<close>

definition handleCheck_resume ::
    "(rat \<Rightarrow> rat) \<Rightarrow> Pending \<Rightarrow> fetch_outcome \<Rightarrow> rat \<Rightarrow> Session \<Rightarrow> js_error + Session" where
  "handleCheck_resume fl k outcome rnd st =
     (case checkGrammar (k_userAnswer k) outcome of
        Inl e \<Rightarrow> Inl e
      | Inr msgs \<Rightarrow>
          (let newResult = \<lparr>r_jpn = jpn (current (k_frame k)), r_eng = eng (current (k_frame k)),
                             r_userAnswer = k_userAnswer k, evalText = k_evalText k,
                             grammarMessages = msgs\<rparr>
           in case pickNextQuestion fl (k_corpus k) rnd of
                None \<Rightarrow> Inr (st\<lparr>checking' := False\<rparr>)
              | Some newQuestion \<Rightarrow>
                  Inr (st\<lparr>animFrom := Some \<lparr>lastResult = lastResult (k_frame k),
                                               current = current (k_frame k)\<rparr>,
                           animTo := Some \<lparr>lastResult = Some newResult, current = newQuestion\<rparr>,
                           animating := True\<rparr>)))"

text \<open>
  The two ways to submit. The interactive \<open>Frame\<close> is rendered only when the component
  is past loading, has a frame and is not animating; the frames shown during the
  animation have no handlers. The key handler calls \<open>onSubmit\<close> only when \<open>checking\<close>
  is false, and the button is disabled while \<open>checking\<close> is true.
\<close>

record KeyEvent =
  key :: jsstring
  ctrlKey :: bool
  metaKey :: bool

definition interactiveFrame :: "Session \<Rightarrow> bool" where
  "interactiveFrame st \<longleftrightarrow> \<not> loading st \<and> frame st \<noteq> None \<and> \<not> animating st"

definition Frame_onKeyDown ::
    "(jsstring \<Rightarrow> jsstring) \<Rightarrow> (rat \<Rightarrow> rat) \<Rightarrow> KeyEvent \<Rightarrow> Session \<Rightarrow> Session \<times> Pending option" where
  "Frame_onKeyDown toLowerCase fl e st =
     (if \<not> interactiveFrame st then (st, None)
      else if key e = js ''Enter'' \<and> (ctrlKey e \<or> metaKey e) then
        (if \<not> checking' st then handleCheck toLowerCase fl st else (st, None))
      else (st, None))"

definition Frame_onClick ::
    "(jsstring \<Rightarrow> jsstring) \<Rightarrow> (rat \<Rightarrow> rat) \<Rightarrow> Session \<Rightarrow> Session \<times> Pending option" where
  "Frame_onClick toLowerCase fl st =
     (if \<not> interactiveFrame st then (st, None)
      else if checking' st then (st, None)
      else handleCheck toLowerCase fl st)"

text \<open>
  The layout effect of the animation. \<open>refsAttached\<close> says that the three element
  references are set, \<open>h\<close> is \<open>offsetHeight\<close> of the first frame. With no height the
  effect commits at once; otherwise it schedules a timeline whose \<open>onComplete\<close> holds
  the frame \<open>animTo\<close> of this run.
\<close>

datatype EffectOutcome = Skipped | Committed Session | Scheduled FrameState nat

definition animationEffect :: "bool \<Rightarrow> nat \<Rightarrow> Session \<Rightarrow> EffectOutcome" where
  "animationEffect refsAttached h st =
     (if \<not> animating st then Skipped
      else if \<not> refsAttached then Skipped
      else
        (case (animFrom st, animTo st) of
           (Some fromFrame, Some toFrame) \<Rightarrow>
             if h = 0 then
               Committed (st\<lparr>frame := Some toFrame, animating := False, animFrom := None,
                             animTo := None, userAnswer := [], checking' := False\<rparr>)
             else Scheduled toFrame h
         | _ \<Rightarrow> Skipped))"

definition onComplete :: "FrameState \<Rightarrow> Session \<Rightarrow> Session" where
  "onComplete toFrame st =
     st\<lparr>frame := Some toFrame, animating := False, animFrom := None, animTo := None,
        userAnswer := [], checking' := False\<rparr>"

section \<open>The session without the transition\<close>

text \<open>
  The component of \<open>src/App.tsx\<close>: the same scoring and grammar check, no animation.
  Its key handler calls \<open>handleCheck\<close> without looking at \<open>checking\<close>; its button is
  disabled while \<open>checking\<close> is true. Its \<open>handleCheck\<close> has no \<open>try\<close> either.
\<close>

record PlainApp =
  p_corpus :: "CorpusPair list"
  p_current :: "CorpusPair option"
  p_loading :: bool
  p_lastResult :: "LastResult option"
  p_userAnswer :: jsstring
  p_checking :: bool

record PlainPending =
  pk_current :: CorpusPair
  pk_userAnswer :: jsstring
  pk_corpus :: "CorpusPair list"
  pk_evalText :: jsstring

definition nextQuestion ::
    "(rat \<Rightarrow> rat) \<Rightarrow> CorpusPair list \<Rightarrow> rat \<Rightarrow> PlainApp \<Rightarrow> PlainApp" where
  "nextQuestion fl c rnd st =
     (if length c = 0 then st
      else st\<lparr>p_current := randomPair fl c rnd, p_userAnswer := []\<rparr>)"

definition plain_handleCheck ::
    "(jsstring \<Rightarrow> jsstring) \<Rightarrow> (rat \<Rightarrow> rat) \<Rightarrow> PlainApp \<Rightarrow> PlainApp \<times> PlainPending option" where
  "plain_handleCheck toLowerCase fl st =
     (case p_current st of
        None \<Rightarrow> (st, None)
      | Some cur \<Rightarrow>
          if trim (p_userAnswer st) = [] then (st, None)
          else
            (st\<lparr>p_checking := True\<rparr>,
             Some \<lparr>pk_current = cur, pk_userAnswer = p_userAnswer st, pk_corpus = p_corpus st,
                   pk_evalText = evaluateAnswer toLowerCase fl (eng cur) (p_userAnswer st)\<rparr>))"

definition plain_handleCheck_resume ::
    "(rat \<Rightarrow> rat) \<Rightarrow> PlainPending \<Rightarrow> fetch_outcome \<Rightarrow> rat \<Rightarrow> PlainApp \<Rightarrow> js_error + PlainApp" where
  "plain_handleCheck_resume fl k outcome rnd st =
     (case checkGrammar (pk_userAnswer k) outcome of
        Inl e \<Rightarrow> Inl e
      | Inr msgs \<Rightarrow>
          (let st1 = st\<lparr>p_lastResult :=
                         Some \<lparr>r_jpn = jpn (pk_current k), r_eng = eng (pk_current k),
                               r_userAnswer = pk_userAnswer k, evalText = pk_evalText k,
                               grammarMessages = msgs\<rparr>\<rparr>;
               st2 = nextQuestion fl (pk_corpus k) rnd st1
           in Inr (st2\<lparr>p_checking := False\<rparr>)))"

definition plain_rendered :: "PlainApp \<Rightarrow> bool" where
  "plain_rendered st \<longleftrightarrow> \<not> p_loading st \<and> p_current st \<noteq> None"

definition plain_onKeyDown ::
    "(jsstring \<Rightarrow> jsstring) \<Rightarrow> (rat \<Rightarrow> rat) \<Rightarrow> KeyEvent \<Rightarrow> PlainApp \<Rightarrow> PlainApp \<times> PlainPending option" where
  "plain_onKeyDown toLowerCase fl e st =
     (if \<not> plain_rendered st then (st, None)
      else if key e = js ''Enter'' \<and> (ctrlKey e \<or> metaKey e) then
        plain_handleCheck toLowerCase fl st
      else (st, None))"

definition plain_onClick ::
    "(jsstring \<Rightarrow> jsstring) \<Rightarrow> (rat \<Rightarrow> rat) \<Rightarrow> PlainApp \<Rightarrow> PlainApp \<times> PlainPending option" where
  "plain_onClick toLowerCase fl st =
     (if \<not> plain_rendered st then (st, None)
      else if p_checking st then (st, None)
      else plain_handleCheck toLowerCase fl st)"

section \<open>Tokenising, as the specification words it\<close>

text \<open>
  Split on runs of white space; lowercase each chunk and keep its token characters; drop
  the chunks that become empty. (The earlier revisions of \<open>tokenize\<close> are written in
  this order.)
\<close>

definition tokenize_spec :: "(jsstring \<Rightarrow> jsstring) \<Rightarrow> jsstring \<Rightarrow> jsstring list" where
  "tokenize_spec toLowerCase text =
     filter (\<lambda>w. w \<noteq> [])
       (map (\<lambda>chunk. filter isTokenChar (toLowerCase chunk)) (js_split wsSep [] text))"

text \<open>
  A scanner that yields the same tokens in one pass: \<open>acc\<close> holds the token characters
  of the chunk being read. It is the common form of the code and of the specification's
  wording in the proofs below.
\<close>

fun tokens_from :: "jsstring \<Rightarrow> jsstring \<Rightarrow> jsstring list" where
  "tokens_from acc [] = (if acc = [] then [] else [acc])"
| "tokens_from acc (c # cs) =
     (if isWhiteSpace c then (if acc = [] then tokens_from [] cs else acc # tokens_from [] cs)
      else tokens_from (if isTokenChar c then acc @ [c] else acc) cs)"

text \<open>
  What \<open>tokenize\<close> can see of \<open>asciiLower\<close>, code unit by code unit: the lowered
  unit when it is a token character or white space, nothing otherwise.
\<close>

definition asciiLowerSeen :: "jschar \<Rightarrow> jsstring" where
  "asciiLowerSeen c =
     (let d = (if 0x41 \<le> c \<and> c \<le> 0x5A then c + 0x20 else c)
      in if isTokenChar d \<or> isWhiteSpace d then [d] else [])"

section \<open>The corpus format, as the specification words it\<close>

text \<open>
  A line is usable when it has at least four tab-separated fields and fields 1 and 3 are
  non-empty after trimming; its pair is made of those two trimmed fields.
\<close>

definition usableLine :: "jsstring \<Rightarrow> bool" where
  "usableLine line \<longleftrightarrow>
     (let fields = js_split tabSep [] line
      in 4 \<le> length fields \<and> trim (fields ! 1) \<noteq> [] \<and> trim (fields ! 3) \<noteq> [])"

definition pairOfLine :: "jsstring \<Rightarrow> CorpusPair" where
  "pairOfLine line =
     (let fields = js_split tabSep [] line
      in \<lparr>eng = trim (fields ! 1), jpn = trim (fields ! 3)\<rparr>)"

section \<open>The lines of the grammar check, as the specification words them\<close>




section \<open>Concrete inputs\<close>

text \<open>The inputs at which the theorems below are evaluated.\<close>

definition ex_pairA :: CorpusPair where
  "ex_pairA = \<lparr>eng = js ''Hello'', jpn = js ''Konnichiwa''\<rparr>"

definition ex_pairB :: CorpusPair where
  "ex_pairB = \<lparr>eng = js ''Thanks'', jpn = js ''Arigato''\<rparr>"

definition ex_tsv :: jsstring where
  "ex_tsv = js ''1'' @ [0x09] @ js '' Hello '' @ [0x09] @ js ''2'' @ [0x09] @ js ''Konnichiwa'' @ [0x0D, 0x0A]
          @ js ''3'' @ [0x09] @ js ''short'' @ [0x0A]
          @ js ''  '' @ [0x0A]
          @ js ''4'' @ [0x09] @ js '' '' @ [0x09] @ js ''5'' @ [0x09] @ js ''x'' @ [0x0A]
          @ js ''6'' @ [0x09] @ js ''Thanks'' @ [0x09] @ js ''7'' @ [0x09] @ js ''Arigato'' @ [0x09] @ js ''more''"


definition ex_emptySuggestion :: LTMatch where
  "ex_emptySuggestion = \<lparr>message = js ''Drop it'', replacements = [\<lparr>value' = []\<rparr>]\<rparr>"

definition ex_response :: "LTMatch list \<Rightarrow> Response" where
  "ex_response ms = \<lparr>ok = True, status = 200, statusText = js ''OK'', body = Parsed (Some ms)\<rparr>"

definition ex_unavailable :: Response where
  "ex_unavailable = \<lparr>ok = False, status = 503, statusText = js ''Service Unavailable'',
     body = Unparsable\<rparr>"

definition ex_noFindings :: fetch_outcome where
  "ex_noFindings = Resolved (ex_response [])"

definition ex_frame :: FrameState where
  "ex_frame = \<lparr>lastResult = None, current = ex_pairA\<rparr>"

definition ex_noCorpus :: Session where
  "ex_noCorpus = \<lparr>corpus = [], frame = Some ex_frame, loading = False,
     userAnswer = js ''hello'', checking' = False, animating = False,
     animFrom = None, animTo = None\<rparr>"

definition ex_noCorpus_pending :: Pending where
  "ex_noCorpus_pending = \<lparr>k_frame = ex_frame, k_userAnswer = js ''hello'', k_corpus = [],
     k_evalText = msg_EXACT\<rparr>"

definition ex_newFrame :: FrameState where
  "ex_newFrame = \<lparr>lastResult = Some \<lparr>r_jpn = js ''Konnichiwa'', r_eng = js ''Hello'',
       r_userAnswer = js ''hello'', evalText = msg_EXACT, grammarMessages = [msg_noIssues]\<rparr>,
     current = ex_pairB\<rparr>"

definition ex_animating :: Session where
  "ex_animating = \<lparr>corpus = [ex_pairA, ex_pairB], frame = Some ex_frame, loading = False,
     userAnswer = js ''hello'', checking' = True, animating = True,
     animFrom = Some ex_frame, animTo = Some ex_newFrame\<rparr>"

definition ex_ready :: Session where
  "ex_ready = \<lparr>corpus = [ex_pairA, ex_pairB], frame = Some ex_newFrame, loading = False,
     userAnswer = [], checking' = False, animating = False,
     animFrom = None, animTo = None\<rparr>"

definition ex_checking :: Session where
  "ex_checking = \<lparr>corpus = [ex_pairA, ex_pairB], frame = Some ex_frame, loading = False,
     userAnswer = js ''hello'', checking' = True, animating = False,
     animFrom = None, animTo = None\<rparr>"

definition ex_pending :: Pending where
  "ex_pending = \<lparr>k_frame = ex_frame, k_userAnswer = js ''hello'',
     k_corpus = [ex_pairA, ex_pairB], k_evalText = msg_EXACT\<rparr>"

definition ex_ctrlEnter :: KeyEvent where
  "ex_ctrlEnter = \<lparr>key = js ''Enter'', ctrlKey = True, metaKey = False\<rparr>"

definition ex_plain_checking :: PlainApp where
  "ex_plain_checking = \<lparr>p_corpus = [ex_pairA, ex_pairB], p_current = Some ex_pairA,
     p_loading = False, p_lastResult = None, p_userAnswer = js ''hello'', p_checking = True\<rparr>"

definition ex_plain_pending :: PlainPending where
  "ex_plain_pending = \<lparr>pk_current = ex_pairA, pk_userAnswer = js ''hello'',
     pk_corpus = [ex_pairA, ex_pairB], pk_evalText = msg_EXACT\<rparr>"

definition ex_result :: LastResult where
  "ex_result = \<lparr>r_jpn = js ''Konnichiwa'', r_eng = js ''Hello'', r_userAnswer = js ''hello'',
     evalText = msg_EXACT, grammarMessages = [msg_noIssues]\<rparr>"

definition ex_plain_typing :: PlainApp where
  "ex_plain_typing = \<lparr>p_corpus = [ex_pairA, ex_pairB], p_current = Some ex_pairA,
     p_loading = False, p_lastResult = Some ex_result, p_userAnswer = js ''Hel'',
     p_checking = False\<rparr>"

section \<open>Properties of the rounding\<close>

lemma log2floor_numeral:
  "log2floor (numeral k) x =
     (if x < 1 then log2floor (pred_numeral k) (2 * x) - 1
      else if 2 \<le> x then log2floor (pred_numeral k) (x / 2) + 1
      else 0)"
  by (simp add: numeral_eq_Suc)

lemma floor_rat_numeral_div:
  "\<lfloor>(numeral a :: rat) / numeral b\<rfloor> = numeral a div numeral b"
  using floor_divide_of_int_eq[of "numeral a" "numeral b", where ?'a = rat] by simp

lemmas binary64_eval = binary64_def log2floor_numeral pow2_def roundHalfEven_def Let_def
  floor_rat_numeral_div

text \<open>
  The doubles of the quotients used below; \<open>binary64 (2 / 3)\<close> is
  \<open>0.6666666666666666\<close> and \<open>binary64 (4 / 5)\<close> is the literal \<open>0.8\<close>.
\<close>

lemma binary64_0: "binary64 0 = 0"
  by (simp add: binary64_def)

lemma binary64_1: "binary64 1 = 1"
  by (simp add: binary64_eval)

lemma binary64_half: "binary64 (1 / 2) = 1 / 2"
  by (simp add: binary64_eval)

lemma binary64_two_thirds: "binary64 (2 / 3) = 6004799503160661 / 9007199254740992"
  by (simp add: binary64_eval)

lemma binary64_four_fifths: "binary64 (4 / 5) = 3602879701896397 / 4503599627370496"
  by (simp add: binary64_eval)

lemma binary64_four_ninths: "binary64 (4 / 9) = 2001599834386887 / 4503599627370496"
  by (simp add: binary64_eval)

text \<open>
  0 and 1 are doubles, and a value between them is rounded to a double between them.
\<close>

lemma roundHalfEven_nonneg: "0 \<le> y \<Longrightarrow> 0 \<le> roundHalfEven y"
  by (auto simp: roundHalfEven_def Let_def)

lemma roundHalfEven_le_int: "y \<le> of_int n \<Longrightarrow> roundHalfEven y \<le> n"
proof -
  assume le: "y \<le> of_int n"
  show ?thesis
  proof (cases "y = of_int n")
    case True
    then show ?thesis by (simp add: roundHalfEven_def Let_def)
  next
    case False
    with le have "y < of_int n" by simp
    then have "\<lfloor>y\<rfloor> < n" by (simp add: floor_less_iff)
    then have "\<lfloor>y\<rfloor> + 1 \<le> n" by simp
    then show ?thesis by (auto simp: roundHalfEven_def Let_def)
  qed
qed

lemma log2floor_le_0: "x < 2 \<Longrightarrow> log2floor n x \<le> 0"
proof (induction n arbitrary: x)
  case 0
  then show ?case by simp
next
  case (Suc n)
  show ?case
  proof (cases "x < 1")
    case True
    then have "2 * x < 2" by simp
    from Suc.IH[OF this] True show ?thesis by simp
  next
    case False
    with Suc.prems show ?thesis by simp
  qed
qed

lemma binary64_unit_interval:
  assumes "0 \<le> x" and "x \<le> 1"
  shows "0 \<le> binary64 x \<and> binary64 x \<le> 1"
proof (cases "x = 0")
  case True
  then show ?thesis by (simp add: binary64_def)
next
  case False
  with assms(1) have pos: "0 < x" by simp
  define e where "e = max (log2floor 1100 \<bar>x\<bar>) (- 1022)"
  define k where "k = nat (52 - e)"
  have "log2floor 1100 \<bar>x\<bar> \<le> 0" using assms by (intro log2floor_le_0) simp
  then have e0: "e \<le> 0" by (simp add: e_def)
  then have q: "pow2 (e - 52) = 1 / 2 ^ k" by (simp add: pow2_def k_def)
  have b: "binary64 x = of_int (roundHalfEven (x * 2 ^ k)) / 2 ^ k"
    using pos False unfolding binary64_def Let_def e_def[symmetric] q by simp
  have "x * 2 ^ k \<le> of_int (2 ^ k)" using assms(2) by simp
  then have "roundHalfEven (x * 2 ^ k) \<le> 2 ^ k" by (rule roundHalfEven_le_int)
  then have "(of_int (roundHalfEven (x * 2 ^ k)) :: rat) \<le> of_int (2 ^ k)"
    by (simp only: of_int_le_iff)
  then have u: "(of_int (roundHalfEven (x * 2 ^ k)) :: rat) / 2 ^ k \<le> 1"
    by (simp add: divide_le_eq)
  have "0 \<le> x * 2 ^ k" using assms(1) by simp
  then have "0 \<le> roundHalfEven (x * 2 ^ k)" by (rule roundHalfEven_nonneg)
  then have l: "0 \<le> (of_int (roundHalfEven (x * 2 ^ k)) :: rat) / 2 ^ k" by simp
  from l u b show ?thesis by simp
qed


section \<open>Evaluating the model on concrete inputs\<close>

lemma decimal_digit: "n < 10 \<Longrightarrow> decimal n = [0x30 + n]"
  by (simp add: decimal.simps)

lemmas eval_defs = js_def decimal_digit

lemma decimal_503: "decimal 503 = js ''503''"
  by (simp add: decimal.simps[of 503] decimal.simps[of 50] decimal.simps[of 5] js_def)

lemmas string_eval = js_def asciiLower_def js_split.simps wsSep_def tabSep_def lineSep_def
  isWhiteSpace_def isTokenChar_def isPunctuation_def trim_def

lemmas score_eval = string_eval tokenize_def normalizeExact_def jaccardSimilarity_def
  new_Set_def Set_add_def Set_has_def

lemma ex_tsv_lines:
  "js_split lineSep [] ex_tsv =
     [js ''1'' @ [0x09] @ js '' Hello '' @ [0x09] @ js ''2'' @ [0x09] @ js ''Konnichiwa'',
      js ''3'' @ [0x09] @ js ''short'',
      js ''  '',
      js ''4'' @ [0x09] @ js '' '' @ [0x09] @ js ''5'' @ [0x09] @ js ''x'',
      js ''6'' @ [0x09] @ js ''Thanks'' @ [0x09] @ js ''7'' @ [0x09] @ js ''Arigato'' @ [0x09] @ js ''more'']"
  by (simp add: ex_tsv_def js_def js_split.simps lineSep_def)

lemma ex_exact:
  "normalizeExact asciiLower (js ''its'') = normalizeExact asciiLower (js ''It's.'')"
  "jaccardSimilarity binary64 (tokenize asciiLower (js ''its'')) (tokenize asciiLower (js ''It's.'')) = 0"
  by (simp_all add: score_eval binary64_0)

lemma ex_near:
  "normalizeExact asciiLower (js ''a b c d e'') \<noteq> normalizeExact asciiLower (js ''a b c d f'')"
  "jaccardSimilarity binary64 (tokenize asciiLower (js ''a b c d e'')) (tokenize asciiLower (js ''a b c d f''))
     = binary64 (4 / 5)"
  by (simp_all add: score_eval)

lemma ex_partial:
  "normalizeExact asciiLower (js ''a b'') \<noteq> normalizeExact asciiLower (js ''a c'')"
  "jaccardSimilarity binary64 (tokenize asciiLower (js ''a b'')) (tokenize asciiLower (js ''a c''))
     = binary64 (1 / 2)"
  by (simp_all add: score_eval)

lemma ex_different:
  "normalizeExact asciiLower (js ''a b c d'') \<noteq> normalizeExact asciiLower (js ''a b e f g'')"
  "jaccardSimilarity binary64 (tokenize asciiLower (js ''a b c d'')) (tokenize asciiLower (js ''a b e f g''))
     = binary64 (4 / 9)"
  by (simp_all add: score_eval)

lemma ex_thresholds:
  "binary64 (1 / 2) < binary64 (4 / 5)" "binary64 (4 / 9) < binary64 (1 / 2)"
  by (simp_all add: binary64_half binary64_four_fifths binary64_four_ninths)

lemma ex_hello_exact:
  "evaluateAnswer asciiLower binary64 (js ''Hello'') (js ''hello'') = msg_EXACT"
  by (simp add: evaluateAnswer_def normalizeExact_def string_eval)

lemma ex_hello_nonblank: "trim (js ''hello'') \<noteq> []"
  by (simp add: string_eval)

section \<open>Properties of splitting\<close>

lemma js_split_Nil: "js_split m acc [] = [acc]"
  by (subst js_split.simps) simp

lemma js_split_no_match:
  "m (c # cs) = 0 \<Longrightarrow> js_split m acc (c # cs) = js_split m (acc @ [c]) cs"
  by (subst js_split.simps) simp

lemma js_split_match:
  "m (c # cs) \<noteq> 0 \<Longrightarrow>
     js_split m acc (c # cs) = acc # js_split m [] (drop (m (c # cs)) (c # cs))"
  by (subst js_split.simps) simp

text \<open>
  What the chunks of the two splits of \<open>parseCorpus\<close> are: the fields of a line contain
  no tab and give the line back when joined by tabs; no line contains a line feed.
\<close>

lemma js_split_not_Nil: "js_split m acc s \<noteq> []"
  by (induction m acc s rule: js_split.induct) (subst js_split.simps, simp)

lemma js_join_Cons: "xs \<noteq> [] \<Longrightarrow> js_join sep (x # xs) = x @ sep @ js_join sep xs"
  by (cases xs) simp_all

lemma tab_fields_join: "js_join [0x09] (js_split tabSep acc s) = acc @ s"
proof (induction "tabSep" acc s rule: js_split.induct)
  case (1 acc s)
  show ?case
  proof (cases s)
    case Nil
    then show ?thesis by (simp add: js_split_Nil)
  next
    case (Cons c cs)
    then have ne: "s \<noteq> []" by simp
    show ?thesis
    proof (cases "c = 0x09")
      case False
      with Cons have z: "tabSep s = 0" by (simp add: tabSep_def)
      from "1.hyps"(1)[OF ne z] z Cons show ?thesis by (simp add: js_split_no_match)
    next
      case True
      with Cons have nz: "tabSep s \<noteq> 0" and one: "tabSep s = 1" by (simp_all add: tabSep_def)
      from "1.hyps"(2)[OF ne nz] one Cons True nz show ?thesis
        by (simp add: js_split_match js_join_Cons js_split_not_Nil)
    qed
  qed
qed

lemma tab_fields_no_tab:
  "0x09 \<notin> set acc \<Longrightarrow> f \<in> set (js_split tabSep acc s) \<Longrightarrow> 0x09 \<notin> set f"
proof (induction "tabSep" acc s rule: js_split.induct)
  case (1 acc s)
  show ?case
  proof (cases s)
    case Nil
    with "1.prems" show ?thesis by (simp add: js_split_Nil)
  next
    case (Cons c cs)
    then have ne: "s \<noteq> []" by simp
    show ?thesis
    proof (cases "c = 0x09")
      case False
      with Cons have z: "tabSep s = 0" by (simp add: tabSep_def)
      from False "1.prems"(1) have a: "0x09 \<notin> set (acc @ [hd s])" using Cons by simp
      from "1.prems"(2) z Cons have "f \<in> set (js_split tabSep (acc @ [hd s]) (tl s))"
        by (simp add: js_split_no_match)
      from "1.hyps"(1)[OF ne z a this] show ?thesis .
    next
      case True
      with Cons have nz: "tabSep s \<noteq> 0" by (simp add: tabSep_def)
      from "1.prems"(2) nz Cons have "f = acc \<or> f \<in> set (js_split tabSep [] (drop (tabSep s) s))"
        by (simp add: js_split_match)
      then show ?thesis
      proof
        assume "f = acc" with "1.prems"(1) show ?thesis by simp
      next
        assume "f \<in> set (js_split tabSep [] (drop (tabSep s) s))"
        from "1.hyps"(2)[OF ne nz _ this] show ?thesis by simp
      qed
    qed
  qed
qed

lemma lines_no_newline:
  "0x0A \<notin> set acc \<Longrightarrow> l \<in> set (js_split lineSep acc s) \<Longrightarrow> 0x0A \<notin> set l"
proof (induction "lineSep" acc s rule: js_split.induct)
  case (1 acc s)
  show ?case
  proof (cases s)
    case Nil
    with "1.prems" show ?thesis by (simp add: js_split_Nil)
  next
    case (Cons c cs)
    then have ne: "s \<noteq> []" by simp
    show ?thesis
    proof (cases "lineSep s = 0")
      case z: True
      with Cons have "c \<noteq> 0x0A" by (auto simp: lineSep_def split: if_splits)
      with "1.prems"(1) have a: "0x0A \<notin> set (acc @ [hd s])" using Cons by simp
      from "1.prems"(2) z Cons have "l \<in> set (js_split lineSep (acc @ [hd s]) (tl s))"
        by (simp add: js_split_no_match)
      from "1.hyps"(1)[OF ne z a this] show ?thesis .
    next
      case nz: False
      from "1.prems"(2) nz Cons have "l = acc \<or> l \<in> set (js_split lineSep [] (drop (lineSep s) s))"
        by (simp add: js_split_match)
      then show ?thesis
      proof
        assume "l = acc" with "1.prems"(1) show ?thesis by simp
      next
        assume "l \<in> set (js_split lineSep [] (drop (lineSep s) s))"
        from "1.hyps"(2)[OF ne nz _ this] show ?thesis by simp
      qed
    qed
  qed
qed

section \<open>Properties of the corpus parser\<close>

lemma js_split_chunk_subset:
  "c \<in> set (js_split m acc s) \<Longrightarrow> set c \<subseteq> set acc \<union> set s"
proof (induction m acc s rule: js_split.induct)
  case (1 m acc s)
  show ?case
  proof (cases "s = []")
    case True
    with "1.prems" show ?thesis by (simp add: js_split.simps)
  next
    case ne: False
    show ?thesis
    proof (cases "m s = 0")
      case True
      with ne "1.prems" have "c \<in> set (js_split m (acc @ [hd s]) (tl s))"
        by (simp add: js_split.simps)
      from "1.IH"(1)[OF ne True this] have "set c \<subseteq> set (acc @ [hd s]) \<union> set (tl s)" .
      moreover from ne have "set s = insert (hd s) (set (tl s))"
        by (cases s) auto
      ultimately show ?thesis by auto
    next
      case False
      with ne "1.prems" have "c = acc \<or> c \<in> set (js_split m [] (drop (m s) s))"
        by (simp add: js_split.simps)
      then show ?thesis
      proof
        assume "c = acc" then show ?thesis by simp
      next
        assume "c \<in> set (js_split m [] (drop (m s) s))"
        from "1.IH"(2)[OF ne False this] have "set c \<subseteq> set (drop (m s) s)" by simp
        then show ?thesis using set_drop_subset[of "m s" s] by blast
      qed
    qed
  qed
qed

lemma trim_empty_iff: "trim s = [] \<longleftrightarrow> (\<forall>c \<in> set s. isWhiteSpace c)"
proof
  assume t: "trim s = []"
  show "\<forall>c \<in> set s. isWhiteSpace c"
  proof (cases "dropWhile isWhiteSpace s")
    case Nil
    then show ?thesis by (simp add: dropWhile_eq_Nil_conv)
  next
    case (Cons x xs)
    then have "\<not> isWhiteSpace x" using hd_dropWhile[of isWhiteSpace s] by auto
    moreover from t Cons have "dropWhile isWhiteSpace (rev xs @ [x]) = []"
      by (simp add: trim_def)
    then have "isWhiteSpace x" by (simp add: dropWhile_eq_Nil_conv)
    ultimately show ?thesis by simp
  qed
next
  assume "\<forall>c \<in> set s. isWhiteSpace c"
  then have d: "dropWhile isWhiteSpace s = []" by (simp add: dropWhile_eq_Nil_conv)
  show "trim s = []" unfolding trim_def d by simp
qed

lemma blank_line_not_usable:
  assumes "trim line = []"
  shows "\<not> usableLine line"
proof
  assume u: "usableLine line"
  let ?f = "js_split tabSep [] line"
  from u have len: "4 \<le> length ?f" and ne: "trim (?f ! 1) \<noteq> []"
    by (simp_all add: usableLine_def Let_def)
  from len have "?f ! 1 \<in> set ?f" by simp
  then have "set (?f ! 1) \<subseteq> set line" using js_split_chunk_subset by fastforce
  with assms have "\<forall>c \<in> set (?f ! 1). isWhiteSpace c" by (auto simp: trim_empty_iff)
  with ne show False by (simp add: trim_empty_iff)
qed

lemma parseCorpus_loop_filter:
  "parseCorpus_loop lines result = result @ map pairOfLine (filter usableLine lines)"
proof (induction lines arbitrary: result)
  case Nil
  then show ?case by simp
next
  case (Cons line lines)
  show ?case
  proof (cases "trim line = []")
    case True
    then show ?thesis using Cons.IH blank_line_not_usable by simp
  next
    case False
    then show ?thesis using Cons.IH
      by (auto simp: usableLine_def pairOfLine_def Let_def)
  qed
qed

text \<open>
  C3: for every input text, \<open>parseCorpus\<close> returns exactly the pairs (trimmed field 1,
  trimmed field 3) of the usable lines, in the order of the lines. Lines with fewer than
  four fields, lines with an empty required field and blank lines contribute nothing;
  a blank line is never usable. The function is total: no input raises.
\<close>

theorem parseCorpus_pairs:
  "parseCorpus tsv = map pairOfLine (filter usableLine (js_split lineSep [] tsv))
   \<and> (trim line = [] \<longrightarrow> \<not> usableLine line)"
  using blank_line_not_usable[of line]
  by (simp add: parseCorpus_def parseCorpus_loop_filter)

theorem parseCorpus_pairs_witness:
  "parseCorpus ex_tsv = [ex_pairA, ex_pairB] \<and> trim (js ''  '') = [] \<and> \<not> usableLine (js ''  '')"
proof -
  have "map pairOfLine (filter usableLine (js_split lineSep [] ex_tsv)) = [ex_pairA, ex_pairB]"
    unfolding ex_tsv_lines
    by (simp add: usableLine_def pairOfLine_def ex_pairA_def ex_pairB_def string_eval)
  moreover have "trim (js ''  '') = []" by (simp add: string_eval)
  ultimately show ?thesis using parseCorpus_pairs[of ex_tsv "js ''  ''"] by simp
qed

section \<open>Properties of the similarity score\<close>

lemma foldl_Set_add_set: "set (foldl Set_add S xs) = set S \<union> set xs"
  by (induction xs arbitrary: S) (auto simp: Set_add_def)

lemma foldl_Set_add_distinct: "distinct S \<Longrightarrow> distinct (foldl Set_add S xs)"
  by (induction xs arbitrary: S) (auto simp: Set_add_def)

lemma set_new_Set: "set (new_Set xs) = set xs"
  by (simp add: new_Set_def foldl_Set_add_set)

lemma distinct_new_Set: "distinct (new_Set xs)"
  by (simp add: new_Set_def foldl_Set_add_distinct)

lemma length_new_Set: "length (new_Set xs) = card (set xs)"
  using distinct_card[OF distinct_new_Set, of xs] by (simp add: set_new_Set)

lemma inter_new_Set:
  "length (filter (\<lambda>x. Set_has (new_Set b) x) (new_Set a)) = card (set a \<inter> set b)"
proof -
  have "length (filter (\<lambda>x. x \<in> set b) (new_Set a)) = card (set (filter (\<lambda>x. x \<in> set b) (new_Set a)))"
    using distinct_card[of "filter (\<lambda>x. x \<in> set b) (new_Set a)"] distinct_new_Set[of a]
    by simp
  also have "set (filter (\<lambda>x. x \<in> set b) (new_Set a)) = set a \<inter> set b"
    by (auto simp: set_new_Set)
  finally show ?thesis by (simp add: Set_has_def set_new_Set)
qed

lemma jaccardSimilarity_card:
  "jaccardSimilarity fl a b =
     (if card (set a) + card (set b) = 0 then 0
      else fl ((2 * of_nat (card (set a \<inter> set b))) / of_nat (card (set a) + card (set b))))"
proof -
  have "jaccardSimilarity fl a b =
     (if length (new_Set a) + length (new_Set b) = 0 then 0
      else fl ((of_nat (length (filter (\<lambda>x. Set_has (new_Set b) x) (new_Set a))) * 2)
             / of_nat (length (new_Set a) + length (new_Set b))))"
    unfolding jaccardSimilarity_def Let_def ..
  then show ?thesis
    unfolding inter_new_Set length_new_Set by (simp only: mult.commute)
qed

lemma quotient_unit_interval:
  "0 \<le> (2 * of_nat (card (set a \<inter> set b)) :: rat) / of_nat (card (set a) + card (set b))
   \<and> (2 * of_nat (card (set a \<inter> set b)) :: rat) / of_nat (card (set a) + card (set b)) \<le> 1"
proof -
  define i where "i = card (set a \<inter> set b)"
  define n where "n = card (set a) + card (set b)"
  have 1: "card (set a \<inter> set b) \<le> card (set a)" by (simp add: card_mono)
  have 2: "card (set a \<inter> set b) \<le> card (set b)" by (simp add: card_mono)
  from 1 2 have le: "2 * i \<le> n" unfolding i_def n_def by linarith
  have "0 \<le> (2 * of_nat i :: rat) / of_nat n \<and> (2 * of_nat i :: rat) / of_nat n \<le> 1"
  proof (cases "n = 0")
    case True
    then show ?thesis by simp
  next
    case False
    then have pos: "(0::rat) < of_nat n" by simp
    from le have "(of_nat (2 * i) :: rat) \<le> of_nat n" by (rule of_nat_mono)
    then have "2 * (of_nat i :: rat) \<le> of_nat n" by simp
    then have "(2 * (of_nat i :: rat)) / of_nat n \<le> 1" using pos by (simp add: divide_le_eq)
    moreover have "0 \<le> (2 * (of_nat i :: rat)) / of_nat n" by simp
    ultimately show ?thesis by simp
  qed
  then show ?thesis unfolding i_def n_def .
qed

lemma jaccardSimilarity_range:
  assumes "\<forall>x. 0 \<le> x \<and> x \<le> 1 \<longrightarrow> 0 \<le> fl x \<and> fl x \<le> 1"
  shows "0 \<le> jaccardSimilarity fl a b \<and> jaccardSimilarity fl a b \<le> 1"
proof (cases "card (set a) + card (set b) = 0")
  case True
  then show ?thesis by (simp add: jaccardSimilarity_card)
next
  case False
  then have "jaccardSimilarity fl a b =
      fl ((2 * of_nat (card (set a \<inter> set b))) / of_nat (card (set a) + card (set b)))"
    by (simp only: jaccardSimilarity_card if_False)
  with assms quotient_unit_interval[of a b] show ?thesis by simp
qed

lemma jaccardSimilarity_same:
  assumes "fl 1 = 1" and "a \<noteq> []" and "set a = set b"
  shows "jaccardSimilarity fl a b = 1"
proof -
  define n where "n = card (set a)"
  from assms(2) have "n > 0" unfolding n_def by (simp add: card_gt_0_iff)
  then have "(2 * of_nat n :: rat) / of_nat (n + n) = 1" by simp
  moreover have "jaccardSimilarity fl a b =
      (if n + n = 0 then 0 else fl ((2 * of_nat n) / of_nat (n + n)))"
    unfolding n_def using jaccardSimilarity_card[of fl a b] assms(3) by simp
  ultimately show ?thesis using \<open>n > 0\<close> assms(1) by simp
qed

lemma jaccardSimilarity_empty: "jaccardSimilarity fl [] [] = 0"
  by (simp add: jaccardSimilarity_def new_Set_def)

text \<open>
  C4, as the specification states it: the similarity equals
  \<open>2 * |A \<inter> B| / (|A| + |B|)\<close>. The quotient of the code is a double: for the token
  sets \<open>{a, b}\<close> and \<open>{b}\<close> the formula gives \<open>2 / 3\<close>, which is not a double, and
  the code returns \<open>0.6666666666666666\<close>.
\<close>

theorem jaccardSimilarity_rounded_counterexample:
  "jaccardSimilarity binary64 [js ''a'', js ''a'', js ''b''] [js ''b'', js ''b'']
     \<noteq> (2 * of_nat (card (set [js ''a'', js ''a'', js ''b''] \<inter> set [js ''b'', js ''b''])))
         / of_nat (card (set [js ''a'', js ''a'', js ''b'']) + card (set [js ''b'', js ''b'']))"
proof -
  have "jaccardSimilarity binary64 [js ''a'', js ''a'', js ''b''] [js ''b'', js ''b'']
          = binary64 (2 / 3)"
    by (simp add: jaccardSimilarity_def new_Set_def Set_add_def Set_has_def js_def)
  moreover have "set [js ''a'', js ''a'', js ''b''] \<inter> set [js ''b'', js ''b''] = {js ''b''}"
    by (auto simp: js_def)
  moreover have "card (set [js ''a'', js ''a'', js ''b'']) = 2"
    by (simp add: js_def)
  moreover have "card (set [js ''b'', js ''b'']) = 1" by simp
  ultimately show ?thesis by (simp add: binary64_two_thirds)
qed

text \<open>
  C4, amended: the similarity of two token sequences is 0 when both sets of distinct
  tokens are empty, and otherwise \<open>2 * |A \<inter> B| / (|A| + |B|)\<close> rounded to a double
  by the division; it lies between 0 and 1 and is 1 for two non-empty sequences with
  the same token set. The two hypotheses are what this uses of the rounding: 1 is a
  double, and a value between 0 and 1 is rounded to a double between 0 and 1.
\<close>

theorem jaccardSimilarity_formula:
  assumes "fl 1 = 1" and "\<forall>x. 0 \<le> x \<and> x \<le> 1 \<longrightarrow> 0 \<le> fl x \<and> fl x \<le> 1"
  shows "jaccardSimilarity fl a b =
     (if card (set a) + card (set b) = 0 then 0
      else fl ((2 * of_nat (card (set a \<inter> set b))) / of_nat (card (set a) + card (set b))))
   \<and> 0 \<le> jaccardSimilarity fl a b \<and> jaccardSimilarity fl a b \<le> 1
   \<and> (a \<noteq> [] \<and> set a = set b \<longrightarrow> jaccardSimilarity fl a b = 1)
   \<and> jaccardSimilarity fl [] [] = 0"
  using jaccardSimilarity_card[of fl a b] jaccardSimilarity_range[OF assms(2), of a b]
    jaccardSimilarity_same[of fl a b] assms(1) jaccardSimilarity_empty[of fl]
  by blast

theorem jaccardSimilarity_formula_witness:
  "binary64 1 = 1
   \<and> [js ''a'', js ''b''] \<noteq> [] \<and> set [js ''a'', js ''b''] = set [js ''a'', js ''b'']
   \<and> jaccardSimilarity binary64 [js ''a'', js ''b''] [js ''a'', js ''b''] = 1
   \<and> jaccardSimilarity binary64 [js ''a'', js ''a'', js ''b''] [js ''b'', js ''b'']
       = 6004799503160661 / 9007199254740992
   \<and> jaccardSimilarity binary64 [] [] = 0"
proof -
  have u: "\<forall>x. 0 \<le> x \<and> x \<le> 1 \<longrightarrow> 0 \<le> binary64 x \<and> binary64 x \<le> 1"
    using binary64_unit_interval by blast
  have "jaccardSimilarity binary64 [js ''a'', js ''a'', js ''b''] [js ''b'', js ''b'']
          = binary64 (2 / 3)"
    by (simp add: jaccardSimilarity_def new_Set_def Set_add_def Set_has_def js_def)
  with jaccardSimilarity_formula[OF binary64_1 u, of "[js ''a'', js ''b'']" "[js ''a'', js ''b'']"]
    binary64_1 binary64_two_thirds
  show ?thesis by simp
qed

text \<open>
  Without rounding the two thresholds are comparisons of integers.
\<close>

lemma jaccardSimilarity_bands_integer:
  "(4 / 5 \<le> jaccardSimilarity (\<lambda>x. x) a b \<longleftrightarrow>
      0 < card (set a) + card (set b)
      \<and> 4 * (card (set a) + card (set b)) \<le> 10 * card (set a \<inter> set b))"
  "(1 / 2 \<le> jaccardSimilarity (\<lambda>x. x) a b \<longleftrightarrow>
      0 < card (set a) + card (set b)
      \<and> card (set a) + card (set b) \<le> 4 * card (set a \<inter> set b))"
proof -
  define i where "i = card (set a \<inter> set b)"
  define n where "n = card (set a) + card (set b)"
  have eq: "jaccardSimilarity (\<lambda>x. x) a b = (if n = 0 then 0 else (2 * of_nat i) / of_nat n)"
    unfolding i_def n_def by (rule jaccardSimilarity_card)
  have 1: "4 / 5 \<le> jaccardSimilarity (\<lambda>x. x) a b \<longleftrightarrow> 0 < n \<and> 4 * n \<le> 10 * i"
  proof (cases "n = 0")
    case True
    then show ?thesis by (simp add: eq)
  next
    case False
    then have pos: "(0::rat) < of_nat n" by simp
    have "4 / 5 \<le> (2 * of_nat i) / (of_nat n :: rat) \<longleftrightarrow> (4 * of_nat n :: rat) \<le> 10 * of_nat i"
      using pos by (simp add: field_simps)
    also have "\<dots> \<longleftrightarrow> (of_nat (4 * n) :: rat) \<le> of_nat (10 * i)" by simp
    also have "\<dots> \<longleftrightarrow> 4 * n \<le> 10 * i" by (rule of_nat_le_iff)
    finally show ?thesis using False by (simp add: eq)
  qed
  have 2: "1 / 2 \<le> jaccardSimilarity (\<lambda>x. x) a b \<longleftrightarrow> 0 < n \<and> n \<le> 4 * i"
  proof (cases "n = 0")
    case True
    then show ?thesis by (simp add: eq)
  next
    case False
    then have pos: "(0::rat) < of_nat n" by simp
    have "1 / 2 \<le> (2 * of_nat i) / (of_nat n :: rat) \<longleftrightarrow> (of_nat n :: rat) \<le> 4 * of_nat i"
      using pos by (simp add: field_simps)
    also have "\<dots> \<longleftrightarrow> (of_nat n :: rat) \<le> of_nat (4 * i)" by simp
    also have "\<dots> \<longleftrightarrow> n \<le> 4 * i" by (rule of_nat_le_iff)
    finally show ?thesis using False by (simp add: eq)
  qed
  from 1 show "(4 / 5 \<le> jaccardSimilarity (\<lambda>x. x) a b \<longleftrightarrow>
      0 < card (set a) + card (set b)
      \<and> 4 * (card (set a) + card (set b)) \<le> 10 * card (set a \<inter> set b))"
    unfolding i_def n_def .
  from 2 show "(1 / 2 \<le> jaccardSimilarity (\<lambda>x. x) a b \<longleftrightarrow>
      0 < card (set a) + card (set b)
      \<and> card (set a) + card (set b) \<le> 4 * card (set a \<inter> set b))"
    unfolding i_def n_def .
qed

text \<open>
  C10: the similarity is symmetric in its two arguments: the same count and the same
  sum are divided, whatever the rounding.
\<close>

theorem jaccardSimilarity_symmetric: "jaccardSimilarity fl a b = jaccardSimilarity fl b a"
  unfolding jaccardSimilarity_card[of fl a b] jaccardSimilarity_card[of fl b a]
  by (simp only: Int_commute add.commute)

section \<open>Properties of the tokenizer\<close>

lemma tokenChar_not_white: "isTokenChar c \<Longrightarrow> \<not> isWhiteSpace c"
  by (auto simp: isTokenChar_def isWhiteSpace_def)

lemma wsSep_zero_iff: "s \<noteq> [] \<Longrightarrow> wsSep s = 0 \<longleftrightarrow> \<not> isWhiteSpace (hd s)"
  by (cases s) (simp_all add: wsSep_def)

lemma drop_wsSep: "drop (wsSep s) s = dropWhile isWhiteSpace s"
  by (simp add: wsSep_def dropWhile_eq_drop)

lemma tokens_from_skip: "tokens_from [] (dropWhile isWhiteSpace s) = tokens_from [] s"
  by (induction s) simp_all

lemma tokens_from_split:
  "filter (\<lambda>w. w \<noteq> []) (map (filter isTokenChar) (js_split wsSep a u)) =
     tokens_from (filter isTokenChar a) u"
proof (induction "wsSep" a u rule: js_split.induct)
  case (1 a u)
  show ?case
  proof (cases u)
    case Nil
    then show ?thesis by (simp add: js_split_Nil)
  next
    case (Cons c cs)
    then have ne: "u \<noteq> []" by simp
    show ?thesis
    proof (cases "isWhiteSpace c")
      case False
      with Cons have z: "wsSep u = 0" by (simp add: wsSep_def)
      have step: "js_split wsSep a u = js_split wsSep (a @ [c]) cs"
        using z Cons by (simp add: js_split_no_match)
      have "tokens_from (filter isTokenChar a) u =
              tokens_from (filter isTokenChar (a @ [c])) cs"
        using Cons False by simp
      with "1.hyps"(1)[OF ne z] Cons step show ?thesis by simp
    next
      case True
      with Cons have nz: "wsSep u \<noteq> 0" by (simp add: wsSep_def)
      have d: "drop (wsSep u) u = dropWhile isWhiteSpace cs"
        using Cons True by (simp add: drop_wsSep)
      have step: "js_split wsSep a u = a # js_split wsSep [] (dropWhile isWhiteSpace cs)"
        using nz d Cons by (simp add: js_split_match)
      have ih: "filter (\<lambda>w. w \<noteq> [])
                  (map (filter isTokenChar) (js_split wsSep [] (dropWhile isWhiteSpace cs)))
                = tokens_from [] cs"
        using "1.hyps"(2)[OF ne nz] d by (simp add: tokens_from_skip)
      have "tokens_from (filter isTokenChar a) u =
              (if filter isTokenChar a = [] then tokens_from [] cs
               else filter isTokenChar a # tokens_from [] cs)"
        using Cons True by simp
      with ih step show ?thesis by simp
    qed
  qed
qed

lemma tokens_from_seen:
  "tokens_from acc (filter (\<lambda>c. isTokenChar c \<or> isWhiteSpace c) u) = tokens_from acc u"
  by (induction u arbitrary: acc) (auto simp: tokenChar_not_white)

lemma tokens_from_append:
  "\<forall>c \<in> set x. \<not> isWhiteSpace c \<Longrightarrow>
     tokens_from acc (x @ y) = tokens_from (acc @ filter isTokenChar x) y"
  by (induction x arbitrary: acc) simp_all

lemma tokens_from_skip_seen:
  assumes ws: "\<forall>c. isWhiteSpace c \<longrightarrow> f c = [c]"
  shows "tokens_from [] (concat (map f (dropWhile isWhiteSpace s))) =
           tokens_from [] (concat (map f s))"
  using ws by (induction s) simp_all

lemma tokens_from_split_seen:
  assumes ws: "\<forall>c. isWhiteSpace c \<longrightarrow> f c = [c]"
    and nws: "\<forall>c. \<not> isWhiteSpace c \<longrightarrow> (\<forall>d \<in> set (f c). \<not> isWhiteSpace d)"
  shows "filter (\<lambda>w. w \<noteq> [])
           (map (\<lambda>chunk. filter isTokenChar (concat (map f chunk))) (js_split wsSep a u)) =
         tokens_from (filter isTokenChar (concat (map f a))) (concat (map f u))"
proof (induction "wsSep" a u rule: js_split.induct)
  case (1 a u)
  show ?case
  proof (cases u)
    case Nil
    then show ?thesis by (simp add: js_split_Nil)
  next
    case (Cons c cs)
    then have ne: "u \<noteq> []" by simp
    show ?thesis
    proof (cases "isWhiteSpace c")
      case False
      with Cons have z: "wsSep u = 0" by (simp add: wsSep_def)
      have step: "js_split wsSep a u = js_split wsSep (a @ [c]) cs"
        using z Cons by (simp add: js_split_no_match)
      from False nws have "\<forall>d \<in> set (f c). \<not> isWhiteSpace d" by simp
      then have "tokens_from (filter isTokenChar (concat (map f a))) (f c @ concat (map f cs)) =
          tokens_from (filter isTokenChar (concat (map f a)) @ filter isTokenChar (f c))
            (concat (map f cs))"
        by (rule tokens_from_append)
      then have "tokens_from (filter isTokenChar (concat (map f a))) (concat (map f u)) =
          tokens_from (filter isTokenChar (concat (map f (a @ [c])))) (concat (map f cs))"
        using Cons by simp
      with "1.hyps"(1)[OF ne z] Cons step show ?thesis by simp
    next
      case True
      with Cons have nz: "wsSep u \<noteq> 0" by (simp add: wsSep_def)
      have d: "drop (wsSep u) u = dropWhile isWhiteSpace cs"
        using Cons True by (simp add: drop_wsSep)
      have step: "js_split wsSep a u = a # js_split wsSep [] (dropWhile isWhiteSpace cs)"
        using nz d Cons by (simp add: js_split_match)
      have ih: "filter (\<lambda>w. w \<noteq> [])
                  (map (\<lambda>chunk. filter isTokenChar (concat (map f chunk)))
                     (js_split wsSep [] (dropWhile isWhiteSpace cs)))
                = tokens_from [] (concat (map f cs))"
        using "1.hyps"(2)[OF ne nz] d tokens_from_skip_seen[OF ws, of cs] by simp
      from True ws have "f c = [c]" by simp
      then have "tokens_from (filter isTokenChar (concat (map f a))) (concat (map f u)) =
              (if filter isTokenChar (concat (map f a)) = [] then tokens_from [] (concat (map f cs))
               else filter isTokenChar (concat (map f a)) # tokens_from [] (concat (map f cs)))"
        using Cons True by simp
      with ih step show ?thesis by simp
    qed
  qed
qed

lemma filter_tokenChar_seen:
  "filter isTokenChar (filter (\<lambda>c. isTokenChar c \<or> isWhiteSpace c) s) = filter isTokenChar s"
  by (induction s) auto

text \<open>
  C7: \<open>tokenize\<close> gives the chunks between runs of white space, each lowercased and
  reduced to its ASCII letters, apostrophes and right single quotation marks, without the
  chunks that become empty; \<open>tokenize("It's a test.")\<close> is \<open>["it's", "a", "test"]\<close>.

  The code lowercases the whole text before it splits, the specification lowercases
  chunk by chunk. The case mapping is the runtime's and enters through what \<open>tokenize\<close>
  can see of it, the token characters and the white space of the lowered text. The
  hypotheses say that this part is produced code unit by code unit (by \<open>f\<close>), that
  white space is mapped to itself and that nothing else is mapped to white space. The
  Unicode mapping is of this kind: seen this way it sends A to Z to a to z, U+0130 to i,
  U+212A to k, the token characters and white space to themselves and every other code
  unit to nothing.
\<close>

theorem tokenize_chunks:
  assumes seen: "\<forall>s. filter (\<lambda>c. isTokenChar c \<or> isWhiteSpace c) (toLowerCase s) = concat (map f s)"
    and ws: "\<forall>c. isWhiteSpace c \<longrightarrow> f c = [c]"
    and nws: "\<forall>c. \<not> isWhiteSpace c \<longrightarrow> (\<forall>d \<in> set (f c). \<not> isWhiteSpace d)"
  shows "tokenize toLowerCase text = tokenize_spec toLowerCase text
       \<and> (toLowerCase (js ''It's a test.'') = js ''it's a test.'' \<longrightarrow>
            tokenize toLowerCase (js ''It's a test.'') = [js ''it's'', js ''a'', js ''test''])"
proof -
  have "tokenize toLowerCase text = tokens_from [] (toLowerCase text)"
    using tokens_from_split[of "[]" "toLowerCase text"] by (simp add: tokenize_def)
  also have "\<dots> = tokens_from [] (concat (map f text))"
    using tokens_from_seen[of "[]" "toLowerCase text"] seen by simp
  finally have l: "tokenize toLowerCase text = tokens_from [] (concat (map f text))" .
  have "\<And>chunk. filter isTokenChar (toLowerCase chunk) = filter isTokenChar (concat (map f chunk))"
    using filter_tokenChar_seen seen by metis
  then have "tokenize_spec toLowerCase text =
      filter (\<lambda>w. w \<noteq> [])
        (map (\<lambda>chunk. filter isTokenChar (concat (map f chunk))) (js_split wsSep [] text))"
    by (simp add: tokenize_spec_def)
  also have "\<dots> = tokens_from [] (concat (map f text))"
    using tokens_from_split_seen[OF ws nws, of "[]" "text"] by simp
  finally have r: "tokenize_spec toLowerCase text = tokens_from [] (concat (map f text))" .
  have "toLowerCase (js ''It's a test.'') = js ''it's a test.'' \<Longrightarrow>
      tokenize toLowerCase (js ''It's a test.'') = [js ''it's'', js ''a'', js ''test'']"
    by (simp add: tokenize_def js_def js_split.simps wsSep_def isWhiteSpace_def isTokenChar_def)
  with l r show ?thesis by simp
qed

lemma asciiLower_seen:
  "filter (\<lambda>c. isTokenChar c \<or> isWhiteSpace c) (asciiLower s) = concat (map asciiLowerSeen s)"
  by (induction s) (simp_all add: asciiLower_def asciiLowerSeen_def Let_def)

lemma asciiLowerSeen_white: "isWhiteSpace c \<Longrightarrow> asciiLowerSeen c = [c]"
  by (auto simp: asciiLowerSeen_def isWhiteSpace_def)

lemma asciiLowerSeen_not_white:
  "\<not> isWhiteSpace c \<Longrightarrow> d \<in> set (asciiLowerSeen c) \<Longrightarrow> \<not> isWhiteSpace d"
  by (auto simp: asciiLowerSeen_def Let_def isWhiteSpace_def split: if_splits)

lemma ex_lower: "asciiLower (js ''It's a test.'') = js ''it's a test.''"
  by (simp add: asciiLower_def js_def)

theorem tokenize_chunks_witness:
  "(\<forall>s. filter (\<lambda>c. isTokenChar c \<or> isWhiteSpace c) (asciiLower s) = concat (map asciiLowerSeen s))
   \<and> asciiLower (js ''It's a test.'') = js ''it's a test.''
   \<and> tokenize asciiLower (js ''a  B9c '') = tokenize_spec asciiLower (js ''a  B9c '')
   \<and> tokenize asciiLower (js ''It's a test.'') = [js ''it's'', js ''a'', js ''test'']"
proof -
  have 1: "\<forall>s. filter (\<lambda>c. isTokenChar c \<or> isWhiteSpace c) (asciiLower s) = concat (map asciiLowerSeen s)"
    using asciiLower_seen by simp
  have 2: "\<forall>c. isWhiteSpace c \<longrightarrow> asciiLowerSeen c = [c]"
    using asciiLowerSeen_white by simp
  have 3: "\<forall>c. \<not> isWhiteSpace c \<longrightarrow> (\<forall>d \<in> set (asciiLowerSeen c). \<not> isWhiteSpace d)"
    using asciiLowerSeen_not_white by blast
  from tokenize_chunks[OF 1 2 3, of "js ''a  B9c ''"] tokenize_chunks[OF 1 2 3, of "js ''a''"]
    1 ex_lower
  show ?thesis by simp
qed

section \<open>Properties of the evaluation\<close>

lemma msgs_distinct: "distinct [msg_EXACT, msg_NEAR, msg_PARTIAL, msg_DIFFERENT]"
  by (simp add: msg_EXACT_def msg_NEAR_def msg_PARTIAL_def msg_DIFFERENT_def)

text \<open>
  C1: for every model answer and user answer, \<open>evaluateAnswer\<close> returns the EXACT
  message when the two normalised texts are equal, whatever the tokens are. Otherwise,
  with \<open>s\<close> the similarity of the two token sequences, it returns the NEAR message
  when \<open>s \<ge> 0.8\<close>, the PARTIAL message when \<open>0.5 \<le> s < 0.8\<close> and the DIFFERENT
  message when \<open>s < 0.5\<close>, where \<open>0.8\<close> and \<open>0.5\<close> are the literals of the code.
  The four messages are pairwise different. This holds for every case mapping \<open>lc\<close>
  and every rounding \<open>fl\<close> under which the literal \<open>0.5\<close> is not above the
  literal \<open>0.8\<close>.
\<close>

theorem evaluateAnswer_bands:
  assumes "fl (1 / 2) \<le> fl (4 / 5)"
  shows "(normalizeExact lc model = normalizeExact lc user \<longrightarrow>
      evaluateAnswer lc fl model user = msg_EXACT)
   \<and> (normalizeExact lc model \<noteq> normalizeExact lc user \<longrightarrow>
        (fl (4 / 5) \<le> jaccardSimilarity fl (tokenize lc model) (tokenize lc user) \<longrightarrow>
           evaluateAnswer lc fl model user = msg_NEAR)
      \<and> (fl (1 / 2) \<le> jaccardSimilarity fl (tokenize lc model) (tokenize lc user)
           \<and> jaccardSimilarity fl (tokenize lc model) (tokenize lc user) < fl (4 / 5) \<longrightarrow>
           evaluateAnswer lc fl model user = msg_PARTIAL)
      \<and> (jaccardSimilarity fl (tokenize lc model) (tokenize lc user) < fl (1 / 2) \<longrightarrow>
           evaluateAnswer lc fl model user = msg_DIFFERENT))
   \<and> distinct [msg_EXACT, msg_NEAR, msg_PARTIAL, msg_DIFFERENT]"
  using msgs_distinct assms by (auto simp: evaluateAnswer_def Let_def)

theorem evaluateAnswer_bands_witness:
  "binary64 (1 / 2) \<le> binary64 (4 / 5)
   \<and> normalizeExact asciiLower (js ''its'') = normalizeExact asciiLower (js ''It's.'')
   \<and> jaccardSimilarity binary64 (tokenize asciiLower (js ''its'')) (tokenize asciiLower (js ''It's.'')) = 0
   \<and> evaluateAnswer asciiLower binary64 (js ''its'') (js ''It's.'') = msg_EXACT
   \<and> jaccardSimilarity binary64 (tokenize asciiLower (js ''a b c d e'')) (tokenize asciiLower (js ''a b c d f''))
       = binary64 (4 / 5)
   \<and> evaluateAnswer asciiLower binary64 (js ''a b c d e'') (js ''a b c d f'') = msg_NEAR
   \<and> jaccardSimilarity binary64 (tokenize asciiLower (js ''a b'')) (tokenize asciiLower (js ''a c''))
       = binary64 (1 / 2)
   \<and> evaluateAnswer asciiLower binary64 (js ''a b'') (js ''a c'') = msg_PARTIAL
   \<and> jaccardSimilarity binary64 (tokenize asciiLower (js ''a b c d'')) (tokenize asciiLower (js ''a b e f g''))
       = binary64 (4 / 9)
   \<and> evaluateAnswer asciiLower binary64 (js ''a b c d'') (js ''a b e f g'') = msg_DIFFERENT"
proof -
  have h: "binary64 (1 / 2) \<le> binary64 (4 / 5)" using ex_thresholds(1) by simp
  from evaluateAnswer_bands[OF h, of asciiLower "js ''its''" "js ''It's.''"]
    evaluateAnswer_bands[OF h, of asciiLower "js ''a b c d e''" "js ''a b c d f''"]
    evaluateAnswer_bands[OF h, of asciiLower "js ''a b''" "js ''a c''"]
    evaluateAnswer_bands[OF h, of asciiLower "js ''a b c d''" "js ''a b e f g''"]
    ex_exact ex_near ex_partial ex_different ex_thresholds h
  show ?thesis by simp
qed

section \<open>Properties of the grammar check\<close>








text \<open>
  What the two revisions do with a response that is not a success, and with a success
  whose body has no \<open>matches\<close>.
\<close>

lemma checkGrammar_non_success:
  "\<not> ok res \<Longrightarrow>
     checkGrammar sentence (Resolved res) = Inr [msg_httpError @ decimal (status res)]"
  by (simp add: checkGrammar_def)

lemma checkGrammar_legacy_outcomes:
  "checkGrammar_legacy sentence Rejected = Inl TypeError"
  "\<not> ok res \<Longrightarrow> checkGrammar_legacy sentence (Resolved res) =
     Inr [msg_httpError @ decimal (status res) @ js '' '' @ statusText res]"
  by (simp_all add: checkGrammar_legacy_def)

lemma checkGrammar_missing_matches:
  assumes "ok res" and "body res = Parsed None"
  shows "checkGrammar sentence (Resolved res) = Inl TypeError"
    and "checkGrammar_legacy sentence (Resolved res) = Inr [msg_noIssues]"
  using assms by (simp_all add: checkGrammar_def checkGrammar_legacy_def formatMatches_def)

text \<open>
  An error of \<open>checkGrammar\<close> is an error of the rest of \<open>handleCheck\<close>, in both
  components: no setter runs.
\<close>

lemma handleCheck_resume_raises:
  "checkGrammar (k_userAnswer k) outcome = Inl e \<Longrightarrow>
     handleCheck_resume fl k outcome rnd st = Inl e"
  by (simp add: handleCheck_resume_def)

lemma plain_handleCheck_resume_raises:
  "checkGrammar (pk_userAnswer k) outcome = Inl e \<Longrightarrow>
     plain_handleCheck_resume fl k outcome rnd st = Inl e"
  by (simp add: plain_handleCheck_resume_def)

text \<open>
  C5 where \<open>fetch\<close> rejects. The user has submitted \<open>hello\<close> and the check is
  outstanding. \<open>checkGrammar\<close>, which turns a response with status 503 into one
  diagnostic string, has no handler for the rejection and raises it to its caller; so
  does the earlier revision. The caller has no handler either: the rest of
  \<open>handleCheck\<close> raises, no setter runs, and the session stays as it is, with the
  checking flag set: from then on the button and the key handler do nothing.
\<close>

theorem checkGrammar_rejected_raises:
  "checkGrammar (js ''hello'') Rejected = Inl TypeError
   \<and> checkGrammar_legacy (js ''hello'') Rejected = Inl TypeError
   \<and> checkGrammar (js ''hello'') (Resolved ex_unavailable) = Inr [msg_httpError @ js ''503'']
   \<and> handleCheck asciiLower binary64 (ex_checking\<lparr>checking' := False\<rparr>)
       = (ex_checking, Some ex_pending)
   \<and> checking' ex_checking
   \<and> handleCheck_resume binary64 ex_pending Rejected (1 / 2) ex_checking = Inl TypeError
   \<and> Frame_onClick asciiLower binary64 ex_checking = (ex_checking, None)
   \<and> Frame_onKeyDown asciiLower binary64 ex_ctrlEnter ex_checking = (ex_checking, None)
   \<and> plain_handleCheck_resume binary64 ex_plain_pending Rejected (1 / 2) ex_plain_checking
       = Inl TypeError"
proof -
  have 1: "checkGrammar (js ''hello'') Rejected = Inl TypeError"
    by (simp add: checkGrammar_def)
  have 2: "checkGrammar_legacy (js ''hello'') Rejected = Inl TypeError"
    by (simp add: checkGrammar_legacy_def)
  have 3: "checkGrammar (js ''hello'') (Resolved ex_unavailable) = Inr [msg_httpError @ js ''503'']"
    by (simp add: checkGrammar_def ex_unavailable_def decimal_503)
  have 4: "handleCheck asciiLower binary64 (ex_checking\<lparr>checking' := False\<rparr>)
       = (ex_checking, Some ex_pending)"
    using ex_hello_nonblank
    by (simp add: handleCheck_def ex_checking_def ex_pending_def ex_frame_def ex_pairA_def
        ex_hello_exact)
  have 5: "checking' ex_checking" by (simp add: ex_checking_def)
  have 6: "handleCheck_resume binary64 ex_pending Rejected (1 / 2) ex_checking = Inl TypeError"
    by (simp add: handleCheck_resume_def checkGrammar_def)
  have 7: "plain_handleCheck_resume binary64 ex_plain_pending Rejected (1 / 2) ex_plain_checking
       = Inl TypeError"
    by (simp add: plain_handleCheck_resume_def checkGrammar_def)
  have 8: "Frame_onClick asciiLower binary64 ex_checking = (ex_checking, None)"
    by (simp add: Frame_onClick_def interactiveFrame_def ex_checking_def)
  have 9: "Frame_onKeyDown asciiLower binary64 ex_ctrlEnter ex_checking = (ex_checking, None)"
    by (simp add: Frame_onKeyDown_def interactiveFrame_def ex_checking_def)
  from 1 2 3 4 5 6 7 8 9 show ?thesis by simp
qed




text \<open>
  A first replacement whose value is the empty string: the callback of \<open>map\<close> tests
  the value for truthiness and gives the indexed message alone, the earlier
  \<open>formatMatches\<close> tests the length of \<open>replacements\<close> and appends the empty value.
\<close>

lemma checkGrammar_empty_suggestion:
  "checkGrammar (js ''it it'') (Resolved (ex_response [ex_emptySuggestion]))
     = Inr [js ''1. Drop it'']"
  "checkGrammar_legacy (js ''it it'') (Resolved (ex_response [ex_emptySuggestion]))
     = Inr [js ''1. Drop it'', msg_suggestion]"
  by (simp_all add: checkGrammar_def checkGrammar_legacy_def ex_response_def
      ex_emptySuggestion_def formatMatch_def firstSuggestion_def formatMatches_def eval_defs
      Let_def msg_suggestion_def)

section \<open>Properties of the session\<close>

lemma pickNextQuestion_None_iff:
  assumes "0 \<le> fl (rnd * of_nat (length c))"
    and "fl (rnd * of_nat (length c)) < of_nat (length c)"
  shows "pickNextQuestion fl c rnd = None \<longleftrightarrow> c = []"
proof (cases "c = []")
  case True
  then show ?thesis by (simp add: pickNextQuestion_def)
next
  case False
  define n where "n = length c"
  from False have npos: "0 < n" by (simp add: n_def)
  have lo: "0 \<le> \<lfloor>fl (rnd * of_nat n)\<rfloor>" using assms(1) by (simp add: n_def)
  have "\<lfloor>fl (rnd * of_nat n)\<rfloor> < int n" using assms(2) by (simp add: floor_less_iff n_def)
  with lo have hi: "nat \<lfloor>fl (rnd * of_nat n)\<rfloor> < n" by linarith
  have "randomPair fl c rnd = Some (c ! nat \<lfloor>fl (rnd * of_nat n)\<rfloor>)"
    unfolding randomPair_def Let_def n_def[symmetric] using lo hi npos by simp
  with False show ?thesis by (simp add: pickNextQuestion_def)
qed

text \<open>
  C8: when the evaluation and the grammar check are done and sampling the next pair
  fails, the rest of \<open>handleCheck\<close> only clears the checking flag: the frame, the input
  and the pending transition stay as they were, the new result is dropped, and a session
  that was ready before the submission is that same session again. (When the rounded
  product stays within the array, sampling fails exactly on the empty corpus:
  \<open>pickNextQuestion_None_iff\<close>.)
\<close>

theorem handleCheck_abort_on_empty:
  assumes "handleCheck lc fl st0 = (st1, Some k)"
    and "checkGrammar (k_userAnswer k) outcome = Inr msgs"
    and "pickNextQuestion fl (k_corpus k) rnd = None"
  shows "handleCheck_resume fl k outcome rnd st1 = Inr (st0\<lparr>checking' := False\<rparr>)
       \<and> (\<not> checking' st0 \<longrightarrow> handleCheck_resume fl k outcome rnd st1 = Inr st0)"
proof -
  from assms(1) have st1: "st1 = st0\<lparr>checking' := True\<rparr>"
    by (auto simp: handleCheck_def split: option.splits if_splits)
  have "handleCheck_resume fl k outcome rnd st1 = Inr (st1\<lparr>checking' := False\<rparr>)"
    using assms(2,3) by (simp add: handleCheck_resume_def Let_def)
  then have r: "handleCheck_resume fl k outcome rnd st1 = Inr (st0\<lparr>checking' := False\<rparr>)"
    by (simp add: st1)
  moreover have "\<not> checking' st0 \<Longrightarrow> st0\<lparr>checking' := False\<rparr> = st0" by simp
  ultimately show ?thesis by simp
qed

theorem handleCheck_abort_on_empty_witness:
  "handleCheck asciiLower binary64 ex_noCorpus
       = (ex_noCorpus\<lparr>checking' := True\<rparr>, Some ex_noCorpus_pending)
   \<and> checkGrammar (k_userAnswer ex_noCorpus_pending) ex_noFindings = Inr [msg_noIssues]
   \<and> pickNextQuestion binary64 (k_corpus ex_noCorpus_pending) (1 / 2) = None
   \<and> \<not> checking' ex_noCorpus
   \<and> handleCheck_resume binary64 ex_noCorpus_pending ex_noFindings (1 / 2)
         (ex_noCorpus\<lparr>checking' := True\<rparr>)
       = Inr ex_noCorpus"
proof -
  have 1: "handleCheck asciiLower binary64 ex_noCorpus =
      (ex_noCorpus\<lparr>checking' := True\<rparr>, Some ex_noCorpus_pending)"
    using ex_hello_nonblank
    by (simp add: handleCheck_def ex_noCorpus_def ex_noCorpus_pending_def ex_frame_def
        ex_pairA_def ex_hello_exact)
  have 2: "checkGrammar (k_userAnswer ex_noCorpus_pending) ex_noFindings = Inr [msg_noIssues]"
    by (simp add: checkGrammar_def ex_noFindings_def ex_response_def)
  have 3: "pickNextQuestion binary64 (k_corpus ex_noCorpus_pending) (1 / 2) = None"
    by (simp add: pickNextQuestion_def ex_noCorpus_pending_def)
  have 4: "\<not> checking' ex_noCorpus" by (simp add: ex_noCorpus_def)
  from handleCheck_abort_on_empty[OF 1 2 3] 1 2 3 4 show ?thesis by simp
qed

text \<open>
  C9: with an animation pending, the effect run with no height commits at once, and the
  state it commits is the state \<open>onComplete\<close> of the scheduled timeline produces: the
  frame is the \<open>to\<close> frame, the input is empty, the checking flag, the animating flag and
  the pending pair are cleared.
\<close>

theorem animation_fallback_same_end_state:
  assumes "animating st" and "animFrom st = Some f" and "animTo st = Some t" and "0 < h"
  shows "animationEffect True 0 st = Committed (onComplete t st)
       \<and> animationEffect True h st = Scheduled t h
       \<and> frame (onComplete t st) = Some t
       \<and> userAnswer (onComplete t st) = []
       \<and> \<not> checking' (onComplete t st)
       \<and> animFrom (onComplete t st) = None
       \<and> animTo (onComplete t st) = None
       \<and> \<not> animating (onComplete t st)"
  using assms by (simp add: animationEffect_def onComplete_def)

theorem animation_fallback_same_end_state_witness:
  "animating ex_animating \<and> animFrom ex_animating = Some ex_frame
   \<and> animTo ex_animating = Some ex_newFrame \<and> (0::nat) < 480
   \<and> animationEffect True 0 ex_animating = Committed ex_ready
   \<and> animationEffect True 480 ex_animating = Scheduled ex_newFrame 480
   \<and> onComplete ex_newFrame ex_animating = ex_ready"
proof -
  have 1: "animating ex_animating" by (simp add: ex_animating_def)
  have 2: "animFrom ex_animating = Some ex_frame" by (simp add: ex_animating_def)
  have 3: "animTo ex_animating = Some ex_newFrame" by (simp add: ex_animating_def)
  have 4: "(0::nat) < 480" by simp
  have 5: "onComplete ex_newFrame ex_animating = ex_ready"
    by (simp add: onComplete_def ex_animating_def ex_ready_def)
  from animation_fallback_same_end_state[OF 1 2 3 4] 1 2 3 5 show ?thesis by simp
qed

text \<open>
  Submitting through the interactive frame of the animated component does nothing while
  a check is outstanding, while a transition runs, or when the answer is blank. In the
  component without the transition a blank answer does nothing either, and the button
  does nothing while a check is outstanding.
\<close>

lemma Frame_submit_gated:
  assumes "checking' st \<or> animating st \<or> trim (userAnswer st) = []"
  shows "Frame_onKeyDown lc fl e st = (st, None)" and "Frame_onClick lc fl st = (st, None)"
  using assms
  by (auto simp: Frame_onKeyDown_def Frame_onClick_def interactiveFrame_def handleCheck_def
      split: option.splits)

lemma plain_submit_blank:
  assumes "trim (p_userAnswer st) = []"
  shows "plain_onKeyDown lc fl e st = (st, None)" and "plain_onClick lc fl st = (st, None)"
  using assms
  by (auto simp: plain_onKeyDown_def plain_onClick_def plain_handleCheck_def
      split: option.splits)

lemma plain_onClick_gated: "p_checking st \<Longrightarrow> plain_onClick lc fl st = (st, None)"
  by (simp add: plain_onClick_def)

text \<open>
  \<open>handleCheck\<close> itself looks at neither flag: called with a frame and a non-blank
  answer it starts a cycle, whatever \<open>checking\<close> and \<open>animating\<close> are. The gate is
  in the handlers of the frame.
\<close>

lemma handleCheck_unguarded:
  assumes "frame st = Some f" and "trim (userAnswer st) \<noteq> []"
  shows "snd (handleCheck lc fl st) \<noteq> None"
  using assms by (simp add: handleCheck_def)

text \<open>
  C2 at the key handler of the component without the transition. A check is
  outstanding. The button does nothing, but Ctrl+Enter runs \<open>handleCheck\<close> again and
  leaves a second continuation pending. When that continuation runs, after the first
  one has advanced the session and the user has begun the next answer, it replaces the
  question a second time and empties the input.
\<close>

theorem plain_onKeyDown_reenters:
  "p_checking ex_plain_checking
   \<and> plain_onClick asciiLower binary64 ex_plain_checking = (ex_plain_checking, None)
   \<and> plain_onKeyDown asciiLower binary64 ex_ctrlEnter ex_plain_checking
       = (ex_plain_checking, Some ex_plain_pending)
   \<and> plain_handleCheck_resume binary64 ex_plain_pending ex_noFindings 0 ex_plain_checking
       = Inr (ex_plain_typing\<lparr>p_userAnswer := []\<rparr>)
   \<and> plain_handleCheck_resume binary64 ex_plain_pending ex_noFindings (1 / 2) ex_plain_typing
       = Inr (ex_plain_typing\<lparr>p_current := Some ex_pairB, p_userAnswer := []\<rparr>)"
proof -
  have 1: "p_checking ex_plain_checking" by (simp add: ex_plain_checking_def)
  have 2: "plain_onClick asciiLower binary64 ex_plain_checking = (ex_plain_checking, None)"
    by (simp add: plain_onClick_def plain_rendered_def ex_plain_checking_def)
  have 3: "plain_onKeyDown asciiLower binary64 ex_ctrlEnter ex_plain_checking
       = (ex_plain_checking, Some ex_plain_pending)"
    using ex_hello_nonblank
    by (simp add: plain_onKeyDown_def plain_rendered_def plain_handleCheck_def
        ex_plain_checking_def ex_plain_pending_def ex_ctrlEnter_def ex_pairA_def ex_hello_exact)
  have 4: "plain_handleCheck_resume binary64 ex_plain_pending ex_noFindings 0 ex_plain_checking
       = Inr (ex_plain_typing\<lparr>p_userAnswer := []\<rparr>)"
    by (simp add: plain_handleCheck_resume_def checkGrammar_def ex_noFindings_def
        ex_response_def nextQuestion_def randomPair_def ex_plain_pending_def
        ex_plain_checking_def ex_plain_typing_def ex_result_def ex_pairA_def Let_def
        binary64_0)
  have 5: "plain_handleCheck_resume binary64 ex_plain_pending ex_noFindings (1 / 2) ex_plain_typing
       = Inr (ex_plain_typing\<lparr>p_current := Some ex_pairB, p_userAnswer := []\<rparr>)"
    by (simp add: plain_handleCheck_resume_def checkGrammar_def ex_noFindings_def
        ex_response_def nextQuestion_def randomPair_def ex_plain_pending_def
        ex_plain_typing_def ex_result_def ex_pairA_def Let_def binary64_1)
  from 1 2 3 4 5 show ?thesis by simp
qed

end
